theory Spec2Isabelle
  imports Main "HOL-Library.Word"
begin

unbundle bit_operations_syntax

section \<open>The YUREX BBU sensor driver (yurex.c)\<close>

text \<open>
  A shallow embedding of the driver. The model is sequential: the semaphores
  (\<open>acquire_sem\<close> / \<open>release_sem\<close>) only bracket the field accesses and are left out.
  Calls into the USB module and the \<open>TRACE_ALWAYS\<close> log lines (without their
  newline) are recorded as events, in program order. The data model is LP64: \<open>size_t\<close>, \<open>off_t\<close>, \<open>uint64\<close> and
  \<open>long\<close> have 64 bits, \<open>int\<close> has 32.
\<close>

subsection \<open>Machine types\<close>

type_synonym u8 = "8 word"
type_synonym u16 = "16 word"
type_synonym u32 = "32 word"
type_synonym u64 = "64 word"

text \<open>A \<open>device *\<close>: the address of a device instance on the kernel heap.\<close>

type_synonym addr = nat

subsection \<open>Command bytes (lines 115-122)\<close>

definition CMD_NONE :: u8 where "CMD_NONE = 0xf0"
definition CMD_EOF :: u8 where "CMD_EOF = 0x0d"
definition CMD_ACK :: u8 where "CMD_ACK = 0x21"
definition CMD_MODE :: u8 where "CMD_MODE = 0x41"
definition CMD_VALUE :: u8 where "CMD_VALUE = 0x43"
definition CMD_READ :: u8 where "CMD_READ = 0x52"
definition CMD_WRITE :: u8 where "CMD_WRITE = 0x53"
definition CMD_PADDING :: u8 where "CMD_PADDING = 0xff"

definition YUREX_DEVICE_TYPE_BBU :: u32 where "YUREX_DEVICE_TYPE_BBU = 0"
definition YUREX_DEVICE_TYPE_ANIME :: u32 where "YUREX_DEVICE_TYPE_ANIME = 1"

subsection \<open>Data\<close>

text \<open>
  \<open>struct _device\<close> (lines 68-81). The \<open>next\<close> link is the list \<open>gDeviceList\<close> of
  the driver state below; the two path names, the semaphore and the dummy receive buffer
  (whose content the completion handler gets as its packet) are not fields of the model.
\<close>

record device =
  udev :: u32
  ifno :: u64
  ep_detect :: u32
  ep_address :: u8
  ep :: u32
  bbu :: u64
  anime :: u32

text \<open>\<open>struct _dev_open\<close> (lines 86-91): one open handle.\<close>

record dev_open =
  dev :: addr
  dtype :: u32
  buf :: "u8 list"
  buf_len :: u64

text \<open>
  What the USB module hands to \<open>device_added\<close>: a configuration is the array of its
  interfaces (\<open>interface[i].active\<close>, \<open>None\<close> for \<open>NULL\<close>), an interface the array of
  its endpoints.
\<close>

record usb_endpoint_descriptor =
  attributes :: u8
  endpoint_address :: u8
  max_packet_size :: u16

record usb_endpoint_info =
  descr :: usb_endpoint_descriptor
  handle :: u32

record usb_interface_info =
  endpoint :: "usb_endpoint_info list"

record usb_configuration_info =
  interface :: "usb_interface_info option list"

text \<open>
  The two constants of the USB header that the endpoint check compares with. The header
  is not part of the driver's source, so they are parameters of the model.
\<close>

record usb_header =
  USB_ENDPOINT_ATTR_INTERRUPT :: u8
  USB_ENDPOINT_ADDR_DIR_IN :: u8

datatype status = B_OK | B_ERROR

text \<open>
  Where C leaves the behaviour undefined the model stops with a fault: a dereference of a
  device that is not allocated, a read outside the object a pointer points into.
\<close>

datatype fault = InvalidPointer | OutOfBounds

text \<open>
  Events, in program order: the calls into the USB module (\<open>send_request\<close> with the
  device, the interface number and the 8-byte request; \<open>queue_interrupt\<close> and
  \<open>cancel_queued_transfers\<close> with the pipe; \<open>set_configuration\<close>), the
  \<open>TRACE_ALWAYS\<close> lines, and the steps of \<open>device_removed\<close> on the registry, on the
  \<open>ep_detect\<close> flag and on the heap.
\<close>

datatype event =
    SendRequest u32 u64 "u8 list"
  | QueueInterrupt u32
  | CancelQueuedTransfers u32
  | SetConfiguration u32
  | TraceAlways string
  | RegistryUnlink addr
  | EpDetectCleared addr
  | Free addr

fun is_QueueInterrupt :: "event \<Rightarrow> bool" where
  "is_QueueInterrupt (QueueInterrupt p) = True"
| "is_QueueInterrupt e = False"

text \<open>The globals (lines 94-97), the heap of device instances and the event log.\<close>

record driver =
  gDeviceList :: "addr list"
  gDeviceCount :: u32
  heap :: "addr \<Rightarrow> device option"
  trace :: "event list"

subsection \<open>The yurex functions (lines 135-253)\<close>

text \<open>The requests: \<open>memset(req, CMD_PADDING, 8)\<close>, then the bytes that are set.\<close>

definition set_mode_req :: "u8 \<Rightarrow> u8 list" where
  "set_mode_req val = (replicate 8 CMD_PADDING) [0 := CMD_MODE, 1 := val, 2 := CMD_EOF]"

definition read_req :: "u8 list" where
  "read_req = (replicate 8 CMD_PADDING) [0 := CMD_READ, 1 := CMD_EOF]"

definition write_req :: "u64 \<Rightarrow> u8 list" where
  "write_req v = (replicate 8 CMD_PADDING)
     [0 := CMD_WRITE,
      1 := ucast (drop_bit 32 v AND 0xff),
      2 := ucast (drop_bit 24 v AND 0xff),
      3 := ucast (drop_bit 16 v AND 0xff),
      4 := ucast (drop_bit 8 v AND 0xff),
      5 := ucast (drop_bit 0 v AND 0xff),
      6 := CMD_EOF]"

definition yurex_set_mode :: "device \<Rightarrow> u8 \<Rightarrow> event list" where
  "yurex_set_mode d val = [SendRequest (udev d) (ifno d) (set_mode_req val)]"

definition yurex_read_bbu :: "device \<Rightarrow> event list" where
  "yurex_read_bbu d = [SendRequest (udev d) (ifno d) read_req]"

definition yurex_write_bbu :: "device \<Rightarrow> u64 \<Rightarrow> event list" where
  "yurex_write_bbu d v = [SendRequest (udev d) (ifno d) (write_req v)]"

definition yurex_interrupt :: "device \<Rightarrow> event list" where
  "yurex_interrupt d = [QueueInterrupt (ep d)]"

text \<open>
  The loop of lines 148-152: \<open>bbu = 0; for (i = 1; i <= 5; i++) { bbu <<= 8; bbu += req[i]; }\<close>
  on a \<open>uint64\<close>.
\<close>

definition bbu_of_req :: "u8 list \<Rightarrow> u64" where
  "bbu_of_req req = foldl (\<lambda>v i. push_bit 8 v + ucast (req ! i)) 0 [1..<6]"

text \<open>
  \<open>yurex_callback\<close> (lines 135-163). The packet \<open>req\<close> is the device's 8-byte receive
  buffer; \<open>status\<close> and \<open>actualLength\<close> are not read by the code and are no
  parameters here.
\<close>

definition yurex_callback :: "device \<Rightarrow> u8 list \<Rightarrow> device \<times> event list" where
  "yurex_callback d req =
     (let (d1, ev) =
        (if req ! 0 = CMD_VALUE \<or> req ! 0 = CMD_READ then
           (d\<lparr>bbu := bbu_of_req req\<rparr>,
            if req ! 6 \<noteq> CMD_EOF then [TraceAlways ''invalid bbu delta EOF''] else [])
         else if req ! 0 = CMD_ACK \<and> req ! 1 = CMD_WRITE then (d, yurex_read_bbu d)
         else (d, []))
      in (d1, ev @ (if ep_detect d1 \<noteq> 0 then yurex_interrupt d1 else [])))"

text \<open>A run of completions on one device, each on the state the one before left.\<close>

fun callbacks :: "device \<Rightarrow> u8 list list \<Rightarrow> device \<times> event list" where
  "callbacks d [] = (d, [])"
| "callbacks d (req # reqs) =
     (let (d1, ev1) = yurex_callback d req; (d2, ev2) = callbacks d1 reqs
      in (d2, ev1 @ ev2))"

subsection \<open>Device arrival (lines 381-459)\<close>

text \<open>Lines 398-401: \<open>memset(dev, 0, sizeof(device))\<close>, then \<open>udev\<close> and \<open>anime = 1\<close>.\<close>

definition new_device :: "u32 \<Rightarrow> device" where
  "new_device u =
     \<lparr>udev = u, ifno = 0, ep_detect = 0, ep_address = 0, ep = 0, bbu = 0, anime = 1\<rparr>"

text \<open>The inner loop (lines 426-442) over the endpoints of interface \<open>i\<close>.\<close>

fun endpoint_check :: "usb_header \<Rightarrow> nat \<Rightarrow> usb_endpoint_info list \<Rightarrow> device \<Rightarrow> device" where
  "endpoint_check H i [] d = d"
| "endpoint_check H i (e # es) d =
     (if USB_ENDPOINT_ATTR_INTERRUPT H \<noteq> attributes (descr e) \<or>
         USB_ENDPOINT_ADDR_DIR_IN H \<noteq> (endpoint_address (descr e) AND USB_ENDPOINT_ADDR_DIR_IN H) \<or>
         8 \<noteq> max_packet_size (descr e)
      then endpoint_check H i es d
      else d\<lparr>ep := handle e, ep_address := endpoint_address (descr e), ep_detect := 1,
             ifno := of_nat i\<rparr>)"

text \<open>The outer loop (lines 421-445) over the interfaces, from index \<open>i\<close> on.\<close>

fun interface_check ::
  "usb_header \<Rightarrow> nat \<Rightarrow> usb_interface_info option list \<Rightarrow> device \<Rightarrow> device" where
  "interface_check H i [] d = d"
| "interface_check H i (None # rest) d = interface_check H (Suc i) rest d"
| "interface_check H i (Some intf # rest) d =
     (let d1 = endpoint_check H i (endpoint intf) d
      in if ep_detect d1 \<noteq> 0 then d1 else interface_check H (Suc i) rest d1)"

text \<open>
  \<open>device_added\<close>. The results of the three calls it depends on are parameters:
  \<open>cookie\<close> is what \<open>malloc\<close> returned, \<open>conf\<close> what \<open>get_nth_configuration\<close>
  returned, \<open>setconf\<close> what \<open>set_configuration\<close> returned.
\<close>

definition device_added ::
  "usb_header \<Rightarrow> u32 \<Rightarrow> addr option \<Rightarrow> usb_configuration_info option \<Rightarrow> status \<Rightarrow> driver
     \<Rightarrow> status \<times> driver" where
  "device_added H u cookie conf setconf s =
     (case cookie of
        None \<Rightarrow> (B_ERROR, s)
      | Some p \<Rightarrow>
          (let d0 = new_device u;
               s1 = s\<lparr>gDeviceList := p # gDeviceList s,
                      gDeviceCount := gDeviceCount s + 1,
                      heap := (heap s)(p \<mapsto> d0)\<rparr>
           in case conf of
                None \<Rightarrow> (B_ERROR, s1)
              | Some c \<Rightarrow>
                  (let d1 = interface_check H 0 (interface c) d0;
                       ev = (if ep_detect d1 = 0
                             then [TraceAlways ''can not find suitable endpoint''] else [])
                            @ [SetConfiguration (udev d1)]
                            @ (if setconf = B_OK then []
                               else [TraceAlways ''can not set default configuration''])
                            @ yurex_set_mode d1 0
                            @ yurex_read_bbu d1
                            @ yurex_interrupt d1
                   in (B_OK, s1\<lparr>heap := (heap s1)(p \<mapsto> d1), trace := trace s1 @ ev\<rparr>))))"

subsection \<open>Device removal (lines 461-494)\<close>

text \<open>
  The scan of lines 475-480 for the node whose \<open>next\<close> is \<open>dev\<close>; it is entered only
  when the head is not \<open>dev\<close>.
\<close>

fun unlink_next :: "addr \<Rightarrow> addr list \<Rightarrow> addr list" where
  "unlink_next a (x # y # rest) = (if y = a then x # rest else x # unlink_next a (y # rest))"
| "unlink_next a xs = xs"

definition list_unlink :: "addr \<Rightarrow> addr list \<Rightarrow> addr list" where
  "list_unlink a l =
     (case l of [] \<Rightarrow> [] | x # rest \<Rightarrow> if x = a then rest else unlink_next a l)"

text \<open>Lines 469-484, "remove instance".\<close>

definition remove_instance :: "addr \<Rightarrow> driver \<Rightarrow> driver" where
  "remove_instance a s =
     s\<lparr>gDeviceList := list_unlink a (gDeviceList s),
       gDeviceCount := gDeviceCount s - 1,
       trace := trace s @ [RegistryUnlink a]\<rparr>"

text \<open>Line 487, \<open>dev->ep_detect = 0\<close>.\<close>

definition forbid_requeue :: "addr \<Rightarrow> device \<Rightarrow> driver \<Rightarrow> driver" where
  "forbid_requeue a d s =
     s\<lparr>heap := (heap s)(a \<mapsto> d\<lparr>ep_detect := 0\<rparr>), trace := trace s @ [EpDetectCleared a]\<rparr>"

text \<open>Line 488, \<open>cancel_queued_transfers(dev->ep)\<close>.\<close>

definition cancel_transfers :: "device \<Rightarrow> driver \<Rightarrow> driver" where
  "cancel_transfers d s = s\<lparr>trace := trace s @ [CancelQueuedTransfers (ep d)]\<rparr>"

text \<open>Line 491, \<open>free(cookie)\<close>.\<close>

definition free_resource :: "addr \<Rightarrow> driver \<Rightarrow> driver" where
  "free_resource a s = s\<lparr>heap := (heap s)(a := None), trace := trace s @ [Free a]\<rparr>"

definition device_removed :: "addr \<Rightarrow> driver \<Rightarrow> fault + driver" where
  "device_removed a s =
     (case heap s a of
        None \<Rightarrow> Inl InvalidPointer
      | Some d \<Rightarrow>
          Inr (free_resource a (cancel_transfers d (forbid_requeue a d (remove_instance a s)))))"

text \<open>Whether the first \<open>x\<close> of a log comes before a \<open>y\<close>.\<close>

definition precedes :: "'a \<Rightarrow> 'a \<Rightarrow> 'a list \<Rightarrow> bool" where
  "precedes x y t = (y \<in> set (drop 1 (dropWhile (\<lambda>z. z \<noteq> x) t)))"

subsection \<open>Sessions (lines 496-616)\<close>

text \<open>
  The cookie \<open>device_open\<close> leaves for a device at \<open>a\<close> (lines 506, 514-523):
  \<open>memset\<close> to zero, then \<open>type\<close> and \<open>dev\<close>.
\<close>

definition new_dev_open :: "addr \<Rightarrow> u32 \<Rightarrow> dev_open" where
  "new_dev_open a t = \<lparr>dev = a, dtype = t, buf = replicate 16 0, buf_len = 0\<rparr>"

text \<open>Decimal digits, as the bytes \<open>printf\<close> writes.\<close>

fun dec_digits :: "nat \<Rightarrow> u8 list" where
  "dec_digits n =
     (if n < 10 then [0x30 + of_nat n]
      else dec_digits (n div 10) @ [0x30 + of_nat (n mod 10)])"

declare dec_digits.simps [simp del]

text \<open>\<open>%ld\<close> and \<open>%d\<close>: a signed decimal.\<close>

definition fmt_signed :: "int \<Rightarrow> u8 list" where
  "fmt_signed i = (if i < 0 then 0x2d # dec_digits (nat (- i)) else dec_digits (nat i))"

text \<open>
  \<open>snprintf(buf, 16, ...)\<close> of the text \<open>t\<close> into the buffer \<open>old\<close>: at most 15 bytes
  of \<open>t\<close> and a NUL are written, the rest of the buffer stays, and the result is the
  length of \<open>t\<close>.
\<close>

definition snprintf16 :: "u8 list \<Rightarrow> u8 list \<Rightarrow> u8 list \<times> u64" where
  "snprintf16 old t =
     (take 15 t @ [0] @ drop (Suc (min 15 (length t))) old, of_nat (length t))"

text \<open>
  \<open>device_read\<close> (lines 557-580) on the device \<open>d\<close> the cookie points to. It returns
  the cookie, the length stored to \<open>*length\<close>, and the bytes copied to the caller, which
  are \<open>None\<close> where \<open>memcpy\<close> reads outside the 16 bytes of \<open>buf\<close>.
\<close>

definition device_read ::
  "device \<Rightarrow> dev_open \<Rightarrow> u64 \<Rightarrow> u64 \<Rightarrow> dev_open \<times> u64 \<times> u8 list option" where
  "device_read d cookie position len =
     (let c1 = (if position = 0 then
                  (let (b, n) =
                     (if dtype cookie = YUREX_DEVICE_TYPE_BBU
                      then snprintf16 (buf cookie) (fmt_signed (sint (bbu d)) @ [0x0a])
                      else snprintf16 (buf cookie) (fmt_signed (sint (anime d)) @ [0x0a]))
                   in cookie\<lparr>buf := b, buf_len := n\<rparr>)
                else cookie);
          l0 = buf_len c1 - position;
          l = (if l0 > len then len else l0)
      in (c1, l,
          if unat position + unat l \<le> 16
          then Some (take (unat l) (drop (unat position) (buf c1))) else None))"

text \<open>
  The loop of lines 608-611. It reads the memory at \<open>buffer\<close> until a byte is not a
  digit and never looks at \<open>*length\<close>; \<open>mem\<close> is the whole object \<open>buffer\<close> points
  into, and running off its end is a fault.
\<close>

fun bbu_scan :: "u8 list \<Rightarrow> u64 \<Rightarrow> fault + u64" where
  "bbu_scan [] acc = Inl OutOfBounds"
| "bbu_scan (c # cs) acc =
     (if 0x30 \<le> c \<and> c \<le> 0x39 then bbu_scan cs (acc * 10 + ucast (c - 0x30)) else Inr acc)"

text \<open>
  \<open>device_write\<close> (lines 582-616): \<open>mem\<close> is the object \<open>buffer\<close> points into, of
  which the caller passes the first \<open>len\<close> bytes as the data.
\<close>

definition device_write ::
  "device \<Rightarrow> dev_open \<Rightarrow> u8 list \<Rightarrow> u64 \<Rightarrow> fault + (status \<times> device \<times> event list)" where
  "device_write d cookie mem len =
     (if len = 0 then Inr (B_OK, d, [])
      else if dtype cookie = YUREX_DEVICE_TYPE_ANIME then
        (case mem of
           [] \<Rightarrow> Inl OutOfBounds
         | c # cs \<Rightarrow>
             if c = 0x30
             then (let d1 = d\<lparr>anime := 0\<rparr> in Inr (B_OK, d1, yurex_set_mode d1 0xff))
             else (let d1 = d\<lparr>anime := 1\<rparr> in Inr (B_OK, d1, yurex_set_mode d1 0x00)))
      else
        (case bbu_scan mem 0 of
           Inl f \<Rightarrow> Inl f
         | Inr v \<Rightarrow> Inr (B_OK, d, yurex_write_bbu d v)))"

subsection \<open>The driver as a transition system\<close>

text \<open>The hooks on the driver state: each dereferences its device on the heap.\<close>

definition init_driver :: driver where
  "init_driver = \<lparr>gDeviceList = [], gDeviceCount = 0, heap = (\<lambda>a. None), trace = []\<rparr>"

definition callback_at :: "addr \<Rightarrow> u8 list \<Rightarrow> driver \<Rightarrow> fault + driver" where
  "callback_at a req s =
     (case heap s a of
        None \<Rightarrow> Inl InvalidPointer
      | Some d \<Rightarrow>
          (let (d1, ev) = yurex_callback d req
           in Inr (s\<lparr>heap := (heap s)(a \<mapsto> d1), trace := trace s @ ev\<rparr>)))"

definition write_at :: "dev_open \<Rightarrow> u8 list \<Rightarrow> u64 \<Rightarrow> driver \<Rightarrow> fault + driver" where
  "write_at cookie mem len s =
     (case heap s (dev cookie) of
        None \<Rightarrow> Inl InvalidPointer
      | Some d \<Rightarrow>
          (case device_write d cookie mem len of
             Inl f \<Rightarrow> Inl f
           | Inr (st, d1, ev) \<Rightarrow>
               Inr (s\<lparr>heap := (heap s)(dev cookie \<mapsto> d1), trace := trace s @ ev\<rparr>)))"

text \<open>
  The states the driver reaches from \<open>init_driver\<close> by arrivals, removals, completions
  and writes. \<open>device_read\<close> changes the caller's cookie only, so it is no transition.
\<close>

inductive reachable :: "usb_header \<Rightarrow> driver \<Rightarrow> bool" for H :: usb_header where
  r_init: "reachable H init_driver"
| r_added: "reachable H s \<Longrightarrow> device_added H u cookie conf setconf s = (st, s') \<Longrightarrow> reachable H s'"
| r_removed: "reachable H s \<Longrightarrow> device_removed a s = Inr s' \<Longrightarrow> reachable H s'"
| r_callback: "reachable H s \<Longrightarrow> length req = 8 \<Longrightarrow> callback_at a req s = Inr s' \<Longrightarrow> reachable H s'"
| r_write: "reachable H s \<Longrightarrow> write_at cookie mem len s = Inr s' \<Longrightarrow> reachable H s'"

subsection \<open>The specification's notions\<close>

text \<open>The big-endian value of a byte sequence: \<open>value = value * 256 + byte\<close>.\<close>

definition be_value :: "u8 list \<Rightarrow> nat" where
  "be_value bs = foldl (\<lambda>v b. v * 256 + unat b) 0 bs"

text \<open>An ASCII decimal digit, and the number a run of digits denotes.\<close>

definition is_digit :: "u8 \<Rightarrow> bool" where
  "is_digit c = (0x30 \<le> c \<and> c \<le> 0x39)"

definition dec_value :: "u8 list \<Rightarrow> nat" where
  "dec_value ds = foldl (\<lambda>v c. v * 10 + (unat c - 48)) 0 ds"

subsection \<open>Example states\<close>

text \<open>
  For the examples only: the header constants with the values of the USB specification
  (interrupt transfer type 3, direction bit \<open>0x80\<close>), a configuration whose one
  interface has an interrupt IN endpoint of packet size 8 with pipe handle 5, and the
  driver after the arrival of a device with that configuration, allocated at address 1.
\<close>

definition example_header :: usb_header where
  "example_header = \<lparr>USB_ENDPOINT_ATTR_INTERRUPT = 0x03, USB_ENDPOINT_ADDR_DIR_IN = 0x80\<rparr>"

definition example_conf :: usb_configuration_info where
  "example_conf =
     \<lparr>interface = [Some \<lparr>endpoint =
        [\<lparr>descr = \<lparr>attributes = 0x03, endpoint_address = 0x81, max_packet_size = 8\<rparr>,
          handle = 5\<rparr>]\<rparr>]\<rparr>"

definition streaming_driver :: driver where
  "streaming_driver =
     snd (device_added example_header 7 (Some 1) (Some example_conf) B_OK init_driver)"

text \<open>That driver after the completion of the packet \<open>43 00 00 00 01 2C 0D FF\<close>.\<close>

definition counted_driver :: driver where
  "counted_driver =
     (case callback_at 1 [0x43, 0, 0, 0, 1, 0x2c, 0x0d, 0xff] streaming_driver of
        Inl f \<Rightarrow> streaming_driver
      | Inr s \<Rightarrow> s)"

text \<open>The events one removal adds to the log.\<close>

definition removal_trace :: "addr \<Rightarrow> driver \<Rightarrow> event list" where
  "removal_trace a s =
     (case device_removed a s of
        Inl f \<Rightarrow> []
      | Inr s' \<Rightarrow> drop (length (trace s)) (trace s'))"

section \<open>Words and bytes\<close>

lemma upt_1_6: "[1..<6] = [1, 2, 3, 4, 5::nat]"
  by (simp add: upt_rec)

lemma length8_cases:
  "length (req::'a list) = 8 \<Longrightarrow> \<exists>a0 a1 a2 a3 a4 a5 a6 a7. req = [a0, a1, a2, a3, a4, a5, a6, a7]"
  by (auto simp: length_Suc_conv eval_nat_numeral)

lemma unat_u8_lt: "unat (b::u8) < 256"
proof -
  have "unat b < 2 ^ LENGTH(8)" by (rule unsigned_less)
  then show ?thesis by simp
qed

text \<open>Five shift-and-add steps on a 64-bit word never wrap.\<close>

lemma unat_bbu5:
  "unat (push_bit 8 (push_bit 8 (push_bit 8 (push_bit 8 (push_bit 8 (0::u64) + ucast (a1::u8))
      + ucast (a2::u8)) + ucast (a3::u8)) + ucast (a4::u8)) + ucast (a5::u8))
   = (((unat a1 * 256 + unat a2) * 256 + unat a3) * 256 + unat a4) * 256 + unat a5"
proof -
  let ?n = "(((unat a1 * 256 + unat a2) * 256 + unat a3) * 256 + unat a4) * 256 + unat a5"
  have b: "?n < 2 ^ LENGTH(64)"
    using unat_u8_lt[of a1] unat_u8_lt[of a2] unat_u8_lt[of a3] unat_u8_lt[of a4]
      unat_u8_lt[of a5] by simp
  have "(of_nat ?n :: u64) =
      push_bit 8 (push_bit 8 (push_bit 8 (push_bit 8 (push_bit 8 (0::u64) + ucast a1)
        + ucast a2) + ucast a3) + ucast a4) + ucast a5"
    by (simp add: push_bit_eq_mult)
  then show ?thesis using b by (rule of_nat_inverse)
qed

lemma bbu_of_req_8:
  "bbu_of_req [a0, a1, a2, a3, a4, a5, a6, a7] =
     push_bit 8 (push_bit 8 (push_bit 8 (push_bit 8 (push_bit 8 (0::u64) + ucast a1)
        + ucast a2) + ucast a3) + ucast a4) + ucast a5"
  unfolding bbu_of_req_def upt_1_6 by simp

lemma be_value5:
  "be_value [b1, b2, b3, b4, b5] =
     (((unat b1 * 256 + unat b2) * 256 + unat b3) * 256 + unat b4) * 256 + unat b5"
  by (simp add: be_value_def)

lemma unat_bbu_of_req:
  assumes "length req = 8"
  shows "unat (bbu_of_req req) = be_value (take 5 (drop 1 req))"
proof -
  from assms obtain a0 a1 a2 a3 a4 a5 a6 a7 where r: "req = [a0, a1, a2, a3, a4, a5, a6, a7]"
    using length8_cases by blast
  show ?thesis unfolding r bbu_of_req_8 unat_bbu5 by (simp add: be_value5)
qed

lemma be_value5_lt: "be_value [b1, b2, b3, b4, b5] < 2 ^ 40"
  unfolding be_value5
  using unat_u8_lt[of b1] unat_u8_lt[of b2] unat_u8_lt[of b3] unat_u8_lt[of b4]
    unat_u8_lt[of b5] by simp

lemma bbu_of_req_lt:
  assumes "length req = 8"
  shows "unat (bbu_of_req req) < 2 ^ 40"
proof -
  from assms obtain a0 a1 a2 a3 a4 a5 a6 a7 where r: "req = [a0, a1, a2, a3, a4, a5, a6, a7]"
    using length8_cases by blast
  have "unat (bbu_of_req req) = be_value [a1, a2, a3, a4, a5]"
    unfolding r bbu_of_req_8 unat_bbu5 be_value5 ..
  then show ?thesis by (simp only: be_value5_lt)
qed

lemma byte_of0: "unat (ucast ((v::u64) AND 0xff) :: u8) = unat v mod 256"
proof -
  have m: "(0xff :: u64) = mask 8" by (simp add: mask_eq_exp_minus_1)
  have "unat (ucast (v AND 0xff) :: u8) = unat (ucast (take_bit 8 v) :: u8)"
    unfolding m by (simp only: take_bit_eq_mask)
  also have "\<dots> = take_bit 8 (take_bit 8 (unat v))"
    by (simp add: unsigned_ucast_eq unsigned_take_bit_eq)
  also have "\<dots> = unat v mod 256"
    by (simp add: take_bit_eq_mod)
  finally show ?thesis .
qed

lemma unat_drop: "unat (drop_bit n (v::u64)) = unat v div 2 ^ n"
  by (subst unat_drop_bit_eq) (rule drop_bit_eq_div)

lemma write_req_eq:
  "write_req v = [CMD_WRITE, ucast (drop_bit 32 v AND 0xff), ucast (drop_bit 24 v AND 0xff),
     ucast (drop_bit 16 v AND 0xff), ucast (drop_bit 8 v AND 0xff), ucast (v AND 0xff),
     CMD_EOF, CMD_PADDING]"
  by (simp add: write_req_def eval_nat_numeral)

lemma div_step: "(n::nat) div (k * 256) = n div k div 256"
  by (simp add: div_mult2_eq)

text \<open>The five base-256 digits of a number below \<open>2 ^ 40\<close> give the number back.\<close>

lemma be_digits:
  assumes "n < 2 ^ 40"
  shows "((((n div 2 ^ 32 mod 256) * 256 + n div 2 ^ 24 mod 256) * 256 + n div 2 ^ 16 mod 256) * 256
           + n div 2 ^ 8 mod 256) * 256 + n mod 256 = (n::nat)"
proof -
  define m1 where "m1 = n div 2 ^ 8"
  define m2 where "m2 = n div 2 ^ 16"
  define m3 where "m3 = n div 2 ^ 24"
  define m4 where "m4 = n div 2 ^ 32"
  have d1: "m1 = n div 256" by (simp add: m1_def)
  have d2: "m2 = m1 div 256" using div_step[of n "2 ^ 8"] by (simp add: m1_def m2_def)
  have d3: "m3 = m2 div 256" using div_step[of n "2 ^ 16"] by (simp add: m2_def m3_def)
  have d4: "m4 = m3 div 256" using div_step[of n "2 ^ 24"] by (simp add: m3_def m4_def)
  have "n < 256 * 2 ^ 32" using assms by simp
  then have "m4 < 256" unfolding m4_def by (rule less_mult_imp_div_less)
  then have e4: "m4 mod 256 = m4" by simp
  have e0: "n = m1 * 256 + n mod 256" unfolding d1 by simp
  have e1: "m1 = m2 * 256 + m1 mod 256" unfolding d2 by simp
  have e2: "m2 = m3 * 256 + m2 mod 256" unfolding d3 by simp
  have e3: "m3 = m4 * 256 + m3 mod 256" unfolding d4 by simp
  have "(((m4 mod 256 * 256 + m3 mod 256) * 256 + m2 mod 256) * 256 + m1 mod 256) * 256
          + n mod 256 = n"
    unfolding e4 by (simp only: e3[symmetric] e2[symmetric] e1[symmetric] e0[symmetric])
  then show ?thesis unfolding m1_def m2_def m3_def m4_def .
qed

section \<open>The completion handler decodes the counter\<close>

text \<open>
  Claim C1. For every 8-byte packet whose byte 0 is the VALUE opcode \<open>0x43\<close> or the
  READ opcode \<open>0x52\<close>, the completion handler sets the counter to the big-endian value of
  bytes 1 to 5 (\<open>value = value * 256 + byte\<close>) and changes no other field. Nothing is
  asked of byte 6: when it is not the EOF marker the value is stored all the same, and
  the anomaly is logged.
\<close>

theorem callback_sets_counter_big_endian:
  assumes "length req = 8" and "req ! 0 = CMD_VALUE \<or> req ! 0 = CMD_READ"
  shows "unat (bbu (fst (yurex_callback d req))) = be_value (take 5 (drop 1 req)) \<and>
         fst (yurex_callback d req) = d\<lparr>bbu := bbu (fst (yurex_callback d req))\<rparr> \<and>
         (req ! 6 \<noteq> CMD_EOF \<longrightarrow>
            TraceAlways ''invalid bbu delta EOF'' \<in> set (snd (yurex_callback d req)))"
  using assms by (auto simp: yurex_callback_def unat_bbu_of_req Let_def)

theorem callback_sets_counter_big_endian_witness:
  "length [0x43, 0, 0, 0, 1, 0x2c, 0, 0xff :: u8] = 8 \<and>
   [0x43, 0, 0, 0, 1, 0x2c, 0, 0xff :: u8] ! 0 = CMD_VALUE \<and>
   [0x43, 0, 0, 0, 1, 0x2c, 0, 0xff :: u8] ! 6 \<noteq> CMD_EOF \<and>
   unat (bbu (fst (yurex_callback (new_device 7) [0x43, 0, 0, 0, 1, 0x2c, 0, 0xff]))) = 300 \<and>
   TraceAlways ''invalid bbu delta EOF''
     \<in> set (snd (yurex_callback (new_device 7) [0x43, 0, 0, 0, 1, 0x2c, 0, 0xff]))"
  using callback_sets_counter_big_endian [of "[0x43, 0, 0, 0, 1, 0x2c, 0, 0xff]" "new_device 7"]
  by (simp add: CMD_VALUE_def CMD_EOF_def be_value_def)

section \<open>The WRITE request\<close>

text \<open>
  Claim C6. For every 40-bit value \<open>v\<close> the WRITE request has 8 bytes: byte 0 is
  \<open>0x53\<close>, bytes 1 to 5 are the base-256 digits of \<open>v\<close> from the most significant
  one (so that their big-endian value is \<open>v\<close>), byte 6 is the EOF marker \<open>0x0D\<close>
  and byte 7, the one byte left, is the padding \<open>0xFF\<close>. The request is a function of
  \<open>v\<close> alone: the device only supplies where \<open>send_request\<close> sends it.
\<close>

theorem write_request_layout:
  assumes "unat v < 2 ^ 40"
  shows "length (write_req v) = 8 \<and> write_req v ! 0 = 0x53 \<and>
         write_req v ! 6 = 0x0d \<and> write_req v ! 7 = 0xff \<and>
         map unat (take 5 (drop 1 (write_req v))) =
           [unat v div 2 ^ 32 mod 256, unat v div 2 ^ 24 mod 256, unat v div 2 ^ 16 mod 256,
            unat v div 2 ^ 8 mod 256, unat v mod 256] \<and>
         be_value (take 5 (drop 1 (write_req v))) = unat v \<and>
         yurex_write_bbu d v = [SendRequest (udev d) (ifno d) (write_req v)]"
proof -
  have t: "take 5 (drop 1 (write_req v)) =
      [ucast (drop_bit 32 v AND 0xff), ucast (drop_bit 24 v AND 0xff),
       ucast (drop_bit 16 v AND 0xff), ucast (drop_bit 8 v AND 0xff), ucast (v AND 0xff)]"
    by (simp add: write_req_eq)
  have b: "be_value (take 5 (drop 1 (write_req v))) = unat v"
    unfolding t be_value5 byte_of0 unat_drop using assms by (rule be_digits)
  have m: "map unat (take 5 (drop 1 (write_req v))) =
      [unat v div 2 ^ 32 mod 256, unat v div 2 ^ 24 mod 256, unat v div 2 ^ 16 mod 256,
       unat v div 2 ^ 8 mod 256, unat v mod 256]"
    unfolding t by (simp only: list.map byte_of0 unat_drop)
  have h: "length (write_req v) = 8 \<and> write_req v ! 0 = 0x53 \<and>
      write_req v ! 6 = 0x0d \<and> write_req v ! 7 = 0xff"
    by (simp add: write_req_eq CMD_WRITE_def CMD_EOF_def CMD_PADDING_def)
  have y: "yurex_write_bbu d v = [SendRequest (udev d) (ifno d) (write_req v)]"
    by (simp add: yurex_write_bbu_def)
  from h m b y show ?thesis by blast
qed

theorem write_request_layout_witness:
  "unat (0x0102030405 :: u64) < 2 ^ 40 \<and>
   write_req 0x0102030405 = [0x53, 1, 2, 3, 4, 5, 0x0d, 0xff] \<and>
   be_value (take 5 (drop 1 (write_req 0x0102030405))) = 4328719365"
  using write_request_layout [of "0x0102030405" "new_device 7"]
  by (simp add: write_req_eq CMD_WRITE_def CMD_EOF_def CMD_PADDING_def)

section \<open>Acknowledged writes\<close>

lemma read_req_eq: "read_req = [0x52, 0x0d, 0xff, 0xff, 0xff, 0xff, 0xff, 0xff]"
  by (simp add: read_req_def CMD_READ_def CMD_EOF_def CMD_PADDING_def eval_nat_numeral)

lemma set_mode_req_eq: "set_mode_req x = [0x41, x, 0x0d, 0xff, 0xff, 0xff, 0xff, 0xff]"
  by (simp add: set_mode_req_def CMD_MODE_def CMD_EOF_def CMD_PADDING_def eval_nat_numeral)

text \<open>
  Claim C8. For every 8-byte packet with byte 0 = ACK (\<open>0x21\<close>) and byte 1 = WRITE
  (\<open>0x53\<close>) the completion handler sends the read request (READ, EOF, padding) and
  leaves the device, so its counter and its mode, as they were; the only other event is the
  requeue where \<open>ep_detect\<close> allows it.
\<close>

theorem ack_of_write_requests_read:
  assumes "length req = 8" and "req ! 0 = CMD_ACK" and "req ! 1 = CMD_WRITE"
  shows "snd (yurex_callback d req) =
           SendRequest (udev d) (ifno d) [0x52, 0x0d, 0xff, 0xff, 0xff, 0xff, 0xff, 0xff]
             # (if ep_detect d \<noteq> 0 then [QueueInterrupt (ep d)] else []) \<and>
         fst (yurex_callback d req) = d \<and>
         bbu (fst (yurex_callback d req)) = bbu d \<and>
         anime (fst (yurex_callback d req)) = anime d"
  using assms
  by (simp add: yurex_callback_def yurex_read_bbu_def yurex_interrupt_def read_req_eq
      CMD_ACK_def CMD_VALUE_def CMD_READ_def)

theorem ack_of_write_requests_read_witness:
  "length [0x21, 0x53, 0xff, 0xff, 0xff, 0xff, 0xff, 0xff :: u8] = 8 \<and>
   [0x21, 0x53, 0xff, 0xff, 0xff, 0xff, 0xff, 0xff :: u8] ! 0 = CMD_ACK \<and>
   [0x21, 0x53, 0xff, 0xff, 0xff, 0xff, 0xff, 0xff :: u8] ! 1 = CMD_WRITE \<and>
   yurex_callback (new_device 7) [0x21, 0x53, 0xff, 0xff, 0xff, 0xff, 0xff, 0xff] =
     (new_device 7, [SendRequest 7 0 [0x52, 0x0d, 0xff, 0xff, 0xff, 0xff, 0xff, 0xff]])"
  using ack_of_write_requests_read [of "[0x21, 0x53, 0xff, 0xff, 0xff, 0xff, 0xff, 0xff]" "new_device 7"]
  by (simp add: CMD_ACK_def CMD_WRITE_def new_device_def prod_eq_iff)

section \<open>Requeueing the interrupt\<close>

lemma callback_ep_detect: "ep_detect (fst (yurex_callback d req)) = ep_detect d"
  by (simp add: yurex_callback_def)

lemma callback_events:
  "\<exists>pre. snd (yurex_callback d req) =
           pre @ (if ep_detect d \<noteq> 0 then [QueueInterrupt (ep d)] else []) \<and>
         filter is_QueueInterrupt pre = []"
  by (simp add: yurex_callback_def yurex_read_bbu_def yurex_interrupt_def)

lemma callback_no_requeue:
  "ep_detect d = 0 \<Longrightarrow> filter is_QueueInterrupt (snd (yurex_callback d req)) = []"
  by (simp add: yurex_callback_def yurex_read_bbu_def yurex_interrupt_def)

lemma callbacks_no_requeue:
  "ep_detect d = 0 \<Longrightarrow>
     filter is_QueueInterrupt (snd (callbacks d reqs)) = [] \<and> ep_detect (fst (callbacks d reqs)) = 0"
proof (induction reqs arbitrary: d)
  case Nil
  then show ?case by simp
next
  case (Cons req reqs)
  have e: "ep_detect (fst (yurex_callback d req)) = 0"
    using Cons.prems by (simp add: callback_ep_detect)
  from Cons.IH[OF e] callback_no_requeue[OF Cons.prems, of req]
  show ?case by (simp add: split_beta)
qed

text \<open>
  Claim C2. The events of one completion are some events that are no
  \<open>queue_interrupt\<close>, followed by exactly one \<open>queue_interrupt\<close> when \<open>ep_detect\<close>
  is not 0 and by none when it is 0. The handler never changes \<open>ep_detect\<close>; removal
  stores 0 to it; and from a device whose \<open>ep_detect\<close> is 0 no run of completions,
  whatever the packets, queues the interrupt again.
\<close>

theorem requeue_iff_ep_detect:
  "(\<exists>pre. snd (yurex_callback d req) =
           pre @ (if ep_detect d \<noteq> 0 then [QueueInterrupt (ep d)] else []) \<and>
         filter is_QueueInterrupt pre = []) \<and>
   ep_detect (fst (yurex_callback d req)) = ep_detect d \<and>
   heap (forbid_requeue a d s) a = Some (d\<lparr>ep_detect := 0\<rparr>) \<and>
   (ep_detect d = 0 \<longrightarrow>
      filter is_QueueInterrupt (snd (callbacks d reqs)) = [] \<and>
      ep_detect (fst (callbacks d reqs)) = 0)"
  using callback_events[of d req] callbacks_no_requeue[of d reqs]
  by (simp add: callback_ep_detect forbid_requeue_def)

theorem requeue_iff_ep_detect_witness:
  "ep_detect (new_device 7) = 0 \<and>
   filter is_QueueInterrupt
     (snd (callbacks (new_device 7)
        [[0x43, 0, 0, 0, 1, 0x2c, 0x0d, 0xff], [0x21, 0x53, 0xff, 0xff, 0xff, 0xff, 0xff, 0xff]])) = [] \<and>
   snd (yurex_callback ((new_device 7)\<lparr>ep_detect := 1, ep := 5\<rparr>) [0x43, 0, 0, 0, 1, 0x2c, 0x0d, 0xff])
     = [QueueInterrupt 5]"
  using requeue_iff_ep_detect [of "new_device 7" "[0x43, 0, 0, 0, 1, 0x2c, 0x0d, 0xff]" 1 init_driver
      "[[0x43, 0, 0, 0, 1, 0x2c, 0x0d, 0xff], [0x21, 0x53, 0xff, 0xff, 0xff, 0xff, 0xff, 0xff]]"]
  by (simp add: new_device_def yurex_callback_def yurex_interrupt_def CMD_VALUE_def CMD_EOF_def)

section \<open>The animation endpoint\<close>

lemma dec_digits_0: "dec_digits 0 = [0x30]"
  by (simp add: dec_digits.simps)

lemma dec_digits_1: "dec_digits 1 = [0x31]"
  by (simp add: dec_digits.simps)

lemma take_small:
  "k \<le> 2 \<Longrightarrow> take k (x # y # rest) = take k [x, y]"
  by (cases k; simp; cases "k - 1"; simp)

lemma snprintf16_two: "snprintf16 old [x, y] = ([x, y, 0] @ drop 3 old, 2)"
  by (simp add: snprintf16_def numeral_3_eq_3)

lemma fmt_signed_0: "fmt_signed 0 = [0x30]"
  by (simp add: fmt_signed_def dec_digits_0)

lemma fmt_signed_1: "fmt_signed 1 = [0x31]"
  by (simp add: fmt_signed_def dec_digits.simps)

lemma read_anime:
  assumes "dtype c = YUREX_DEVICE_TYPE_ANIME" and "anime d = 0 \<or> anime d = 1"
  shows "device_read d c 0 n =
           (c\<lparr>buf := [if anime d = 0 then 0x30 else 0x31, 0x0a, 0] @ drop 3 (buf c), buf_len := 2\<rparr>,
            if 2 > n then n else 2,
            Some (take (unat n) [if anime d = 0 then 0x30 else 0x31, 0x0a]))"
proof -
  have t: "YUREX_DEVICE_TYPE_ANIME \<noteq> YUREX_DEVICE_TYPE_BBU"
    by (simp add: YUREX_DEVICE_TYPE_ANIME_def YUREX_DEVICE_TYPE_BBU_def)
  have f: "fmt_signed (sint (anime d)) @ [0x0a] = [if anime d = 0 then 0x30 else 0x31, 0x0a]"
    using assms(2) by (auto simp: fmt_signed_0 fmt_signed_1)
  show ?thesis
  proof (cases "2 > n")
    case True
    then have u: "unat n < 2" by (simp add: word_less_nat_alt)
    then have u2: "unat n \<le> 2" "unat n \<le> 16" by simp_all
    show ?thesis using True u2 t
      by (simp add: device_read_def assms(1) f snprintf16_two take_small[of _ _ _ "[0]"] take_small[of _ _ _ "0 # drop 3 (buf c)"])
  next
    case False
    then have u: "2 \<le> unat n" by (simp add: word_less_nat_alt)
    show ?thesis using False u t
      by (simp add: device_read_def assms(1) f snprintf16_two)
  qed
qed

text \<open>
  Claim C9. On a session of the animation endpoint a write of at least one byte stores
  mode 0 and sends the mode request with argument \<open>0xFF\<close> when the first byte is
  \<open>'0'\<close>, and stores mode 1 and sends it with argument \<open>0x00\<close> for any other first
  byte. A read at offset 0 after it stages the two bytes \<open>"0\n"\<close> or \<open>"1\n"\<close> and
  hands the caller the first \<open>n\<close> bytes of them, which is all of them once \<open>n\<close> is at
  least 2.
\<close>

theorem animation_write_then_read:
  assumes "dtype c = YUREX_DEVICE_TYPE_ANIME" and "len \<noteq> 0"
  shows "device_write d c (b # rest) len =
           Inr (B_OK, d\<lparr>anime := (if b = 0x30 then 0 else 1)\<rparr>,
                [SendRequest (udev d) (ifno d)
                   [0x41, if b = 0x30 then 0xff else 0x00, 0x0d, 0xff, 0xff, 0xff, 0xff, 0xff]]) \<and>
         device_read (d\<lparr>anime := (if b = 0x30 then 0 else 1)\<rparr>) c 0 n =
           (c\<lparr>buf := [if b = 0x30 then 0x30 else 0x31, 0x0a, 0] @ drop 3 (buf c), buf_len := 2\<rparr>,
            if 2 > n then n else 2,
            Some (take (unat n) [if b = 0x30 then 0x30 else 0x31, 0x0a]))"
proof -
  have w: "device_write d c (b # rest) len =
           Inr (B_OK, d\<lparr>anime := (if b = 0x30 then 0 else 1)\<rparr>,
                [SendRequest (udev d) (ifno d)
                   [0x41, if b = 0x30 then 0xff else 0x00, 0x0d, 0xff, 0xff, 0xff, 0xff, 0xff]])"
    using assms by (simp add: device_write_def yurex_set_mode_def set_mode_req_eq)
  have r: "device_read (d\<lparr>anime := (if b = 0x30 then 0 else 1)\<rparr>) c 0 n =
           (c\<lparr>buf := [if b = 0x30 then 0x30 else 0x31, 0x0a, 0] @ drop 3 (buf c), buf_len := 2\<rparr>,
            if 2 > n then n else 2,
            Some (take (unat n) [if b = 0x30 then 0x30 else 0x31, 0x0a]))"
    using read_anime[OF assms(1), of "d\<lparr>anime := (if b = 0x30 then 0 else 1)\<rparr>" n]
    by (cases "b = 0x30") simp_all
  from w r show ?thesis by (rule conjI)
qed

theorem animation_write_then_read_witness:
  "dtype (new_dev_open 1 YUREX_DEVICE_TYPE_ANIME) = YUREX_DEVICE_TYPE_ANIME \<and> (1::u64) \<noteq> 0 \<and>
   device_write (new_device 7) (new_dev_open 1 YUREX_DEVICE_TYPE_ANIME) [0x30] 1 =
     Inr (B_OK, (new_device 7)\<lparr>anime := 0\<rparr>,
          [SendRequest 7 0 [0x41, 0xff, 0x0d, 0xff, 0xff, 0xff, 0xff, 0xff]]) \<and>
   snd (device_read ((new_device 7)\<lparr>anime := 0\<rparr>) (new_dev_open 1 YUREX_DEVICE_TYPE_ANIME) 0 16) =
     (2, Some [0x30, 0x0a])"
  using animation_write_then_read [of "new_dev_open 1 YUREX_DEVICE_TYPE_ANIME" 1 "new_device 7" "0x30" "[]" 16]
  by (simp add: new_dev_open_def new_device_def)

section \<open>Reads past the staged text\<close>

text \<open>
  At an offset from 1 up to the staged length the read copies what is left of the staged
  text, or as much of it as the caller has room for, and reports that many bytes.
\<close>

lemma read_within_staged:
  assumes "position \<noteq> 0" and "position \<le> buf_len c" and "unat (buf_len c) \<le> 16"
  shows "device_read d c position n =
           (c, min n (buf_len c - position),
            Some (take (unat (min n (buf_len c - position))) (drop (unat position) (buf c))))"
proof -
  have s: "unat (buf_len c - position) = unat (buf_len c) - unat position"
    using assms(2) by (rule unat_sub)
  have p: "unat position \<le> unat (buf_len c)" using assms(2) by (simp add: word_le_nat_alt)
  have m: "unat (min n (buf_len c - position)) \<le> unat (buf_len c - position)"
    by (simp add: word_le_nat_alt[symmetric])
  have b: "unat position + unat (min n (buf_len c - position)) \<le> 16"
    using m s p assms(3) by linarith
  have e: "(if buf_len c - position > n then n else buf_len c - position) = min n (buf_len c - position)"
    by (auto simp: min_def)
  show ?thesis using assms(1) b by (simp add: device_read_def Let_def e)
qed

text \<open>
  Claim C4, at an offset beyond the staged length. A counter session on a fresh device
  stages \<open>"0\n"\<close>, so the staged length is 2. A second read at offset 3 with room for 4
  bytes computes \<open>buf_len - position\<close> on unsigned 64-bit integers, which wraps to
  \<open>2 ^ 64 - 1\<close>, clamps it to 4 and copies the 4 bytes at offsets 3 to 6 of the buffer:
  it reports 4 bytes where the claim has 0.
\<close>

theorem read_past_staged_length:
  "device_read (new_device 7) (new_dev_open 1 YUREX_DEVICE_TYPE_BBU) 0 16 =
     ((new_dev_open 1 YUREX_DEVICE_TYPE_BBU)\<lparr>buf := [0x30, 0x0a, 0] @ replicate 13 0, buf_len := 2\<rparr>,
      2, Some [0x30, 0x0a]) \<and>
   device_read (new_device 7)
     ((new_dev_open 1 YUREX_DEVICE_TYPE_BBU)\<lparr>buf := [0x30, 0x0a, 0] @ replicate 13 0, buf_len := 2\<rparr>) 3 4 =
     ((new_dev_open 1 YUREX_DEVICE_TYPE_BBU)\<lparr>buf := [0x30, 0x0a, 0] @ replicate 13 0, buf_len := 2\<rparr>,
      4, Some (replicate 4 0))"
  by (simp add: device_read_def new_dev_open_def new_device_def snprintf16_def fmt_signed_def
      dec_digits_0 YUREX_DEVICE_TYPE_BBU_def)

section \<open>A device without a qualifying endpoint\<close>

text \<open>
  Claim C5, on a device whose only endpoint has packet size 64. The device is put on the
  registry and \<open>ep_detect\<close> stays 0, yet \<open>device_added\<close> goes on to call
  \<open>yurex_interrupt\<close>, which queues an interrupt transfer on the pipe handle 0 that
  \<open>memset\<close> left: the guard on \<open>ep_detect\<close> that the completion handler has is
  missing here.
\<close>

theorem added_without_endpoint_queues_interrupt:
  "device_added H 7 (Some 1)
     (Some \<lparr>interface = [Some \<lparr>endpoint =
        [\<lparr>descr = \<lparr>attributes = 3, endpoint_address = 0x81, max_packet_size = 64\<rparr>, handle = 5\<rparr>]\<rparr>]\<rparr>)
     B_OK init_driver =
   (B_OK, \<lparr>gDeviceList = [1], gDeviceCount = 1, heap = (\<lambda>a. None)(1 \<mapsto> new_device 7),
      trace = [TraceAlways ''can not find suitable endpoint'', SetConfiguration 7,
               SendRequest 7 0 [0x41, 0, 0x0d, 0xff, 0xff, 0xff, 0xff, 0xff],
               SendRequest 7 0 [0x52, 0x0d, 0xff, 0xff, 0xff, 0xff, 0xff, 0xff],
               QueueInterrupt 0]\<rparr>)"
  by (simp add: device_added_def init_driver_def new_device_def yurex_set_mode_def yurex_read_bbu_def
     yurex_interrupt_def set_mode_req_eq read_req_eq)

section \<open>Removal\<close>

lemma unlink_next_remove1: "unlink_next a (x # xs) = x # remove1 a xs"
  by (induction a "x # xs" arbitrary: x xs rule: unlink_next.induct) auto

lemma list_unlink_remove1: "list_unlink a l = remove1 a l"
  by (cases l) (simp_all add: list_unlink_def unlink_next_remove1)

lemma streaming_driver_eq:
  "streaming_driver =
     \<lparr>gDeviceList = [1], gDeviceCount = 1,
      heap = (\<lambda>a. None)(1 \<mapsto> \<lparr>udev = 7, ifno = 0, ep_detect = 1, ep_address = 0x81, ep = 5, bbu = 0, anime = 1\<rparr>),
      trace = [SetConfiguration 7,
               SendRequest 7 0 [0x41, 0, 0x0d, 0xff, 0xff, 0xff, 0xff, 0xff],
               SendRequest 7 0 [0x52, 0x0d, 0xff, 0xff, 0xff, 0xff, 0xff, 0xff],
               QueueInterrupt 5]\<rparr>"
  by (simp add: streaming_driver_def device_added_def init_driver_def new_device_def example_conf_def
      example_header_def yurex_set_mode_def yurex_read_bbu_def yurex_interrupt_def
      set_mode_req_def read_req_def CMD_MODE_def CMD_READ_def CMD_EOF_def CMD_PADDING_def eval_nat_numeral)

text \<open>
  After a removal the device is no longer allocated: a completion that comes in for it
  then has nothing to read \<open>ep_detect\<close> from.
\<close>

lemma callback_after_removal:
  "device_removed a s = Inr s' \<Longrightarrow> callback_at a req s' = Inl InvalidPointer"
  by (auto simp: device_removed_def free_resource_def callback_at_def split: option.splits)

text \<open>
  Claim C3, as the code has it. Removal of an allocated device takes the device off the
  registry list and decrements the count first; \<open>ep_detect\<close> still has its old value
  then. After that it stores 0 to \<open>ep_detect\<close>, then asks the USB module to cancel the
  queued transfers of the pipe, and last frees the device. So the three steps before the
  release all come before it, in the order unlink, flag, cancel.
\<close>

theorem removal_order:
  assumes "heap s a = Some d"
  shows "\<exists>s'. device_removed a s = Inr s' \<and>
           trace s' = trace s @ [RegistryUnlink a, EpDetectCleared a, CancelQueuedTransfers (ep d), Free a] \<and>
           gDeviceList s' = remove1 a (gDeviceList s) \<and>
           gDeviceCount s' = gDeviceCount s - 1 \<and>
           heap s' = (heap s)(a := None) \<and>
           gDeviceList (remove_instance a s) = remove1 a (gDeviceList s) \<and>
           heap (remove_instance a s) a = Some d \<and>
           heap (forbid_requeue a d (remove_instance a s)) a = Some (d\<lparr>ep_detect := 0\<rparr>)"
  using assms
  by (simp add: device_removed_def free_resource_def cancel_transfers_def forbid_requeue_def
      remove_instance_def list_unlink_remove1)

theorem removal_order_witness:
  "heap streaming_driver 1 = Some \<lparr>udev = 7, ifno = 0, ep_detect = 1, ep_address = 0x81, ep = 5, bbu = 0, anime = 1\<rparr> \<and>
   removal_trace 1 streaming_driver = [RegistryUnlink 1, EpDetectCleared 1, CancelQueuedTransfers 5, Free 1] \<and>
   (\<exists>s'. device_removed 1 streaming_driver = Inr s' \<and> gDeviceList s' = [] \<and> gDeviceCount s' = 0 \<and> heap s' 1 = None)"
  using removal_order [of streaming_driver 1 "\<lparr>udev = 7, ifno = 0, ep_detect = 1, ep_address = 0x81, ep = 5, bbu = 0, anime = 1\<rparr>"]
  by (auto simp add: streaming_driver_eq removal_trace_def)

text \<open>
  Claim C3, as stated, has the flag cleared and the cancellation requested before the
  unlink. On the driver with one streaming device neither comes before the unlink.
\<close>

theorem removal_unlinks_first_counterexample:
  "removal_trace 1 streaming_driver = [RegistryUnlink 1, EpDetectCleared 1, CancelQueuedTransfers 5, Free 1] \<and>
   \<not> precedes (EpDetectCleared 1) (RegistryUnlink 1) (removal_trace 1 streaming_driver) \<and>
   \<not> precedes (CancelQueuedTransfers 5) (RegistryUnlink 1) (removal_trace 1 streaming_driver)"
  by (simp add: removal_trace_def streaming_driver_eq device_removed_def free_resource_def cancel_transfers_def forbid_requeue_def
      remove_instance_def precedes_def)

section \<open>Writes to the counter endpoint\<close>

lemma digit_val:
  assumes "is_digit c"
  shows "(ucast (c - 0x30) :: u64) = of_nat (unat c - 48)"
proof -
  have le: "(0x30 :: u8) \<le> c" using assms by (simp add: is_digit_def)
  have "unat (c - 0x30) = unat c - unat (0x30 :: u8)" using le by (rule unat_sub)
  then have u: "unat (c - 0x30) = unat c - 48" by simp
  have "(ucast (c - 0x30) :: u64) = of_nat (unat (c - 0x30))" by simp
  then show ?thesis by (simp only: u)
qed

lemma bbu_scan_Cons:
  "bbu_scan (c # cs) acc = (if is_digit c then bbu_scan cs (acc * 10 + ucast (c - 0x30)) else Inr acc)"
  by (simp add: is_digit_def)

lemma bbu_scan_run:
  "\<not> list_all is_digit xs \<Longrightarrow>
     bbu_scan (xs @ ys) (of_nat k) =
       Inr (of_nat (foldl (\<lambda>v c. v * 10 + (unat c - 48)) k (takeWhile is_digit xs)))"
proof (induction xs arbitrary: k)
  case Nil
  then show ?case by simp
next
  case (Cons c cs)
  show ?case
  proof (cases "is_digit c")
    case True
    then have r: "\<not> list_all is_digit cs" using Cons.prems by simp
    have s: "(of_nat k :: u64) * 10 + ucast (c - 0x30) = of_nat (k * 10 + (unat c - 48))"
      by (simp add: digit_val[OF True])
    have "bbu_scan ((c # cs) @ ys) (of_nat k) = bbu_scan (cs @ ys) (of_nat k * 10 + ucast (c - 0x30))"
      using True by (simp add: bbu_scan_Cons del: bbu_scan.simps)
    also have "\<dots> = bbu_scan (cs @ ys) (of_nat (k * 10 + (unat c - 48)))"
      by (simp only: s)
    also have "\<dots> = Inr (of_nat (foldl (\<lambda>v c. v * 10 + (unat c - 48)) (k * 10 + (unat c - 48)) (takeWhile is_digit cs)))"
      by (rule Cons.IH[OF r])
    finally show ?thesis using True by simp
  next
    case False
    then show ?thesis by (simp add: bbu_scan_Cons del: bbu_scan.simps)
  qed
qed

lemma two_64_wraps: "(18446744073709551616 :: u64) = 0"
  by (simp add: word_eq_iff_unsigned[where ?'a = nat] unsigned_numeral)

lemma bbu_scan_data:
  assumes "\<not> list_all is_digit (take n mem)"
  shows "bbu_scan mem 0 = Inr (of_nat (dec_value (takeWhile is_digit (take n mem))))"
proof -
  have "bbu_scan (take n mem @ drop n mem) (of_nat 0) =
      Inr (of_nat (foldl (\<lambda>v c. v * 10 + (unat c - 48)) 0 (takeWhile is_digit (take n mem))))"
    using assms by (rule bbu_scan_run)
  then show ?thesis by (simp add: dec_value_def)
qed

text \<open>
  Claim C7, as the code has it. A write of length zero does nothing and returns
  \<open>B_OK\<close>, on either endpoint. On the counter endpoint a write of \<open>len > 0\<close> bytes
  that have a byte which is no digit among them passes to \<open>yurex_write_bbu\<close> the number
  the leading run of digits of these bytes denotes, reduced modulo \<open>2 ^ 64\<close> as the
  \<open>uint64\<close> accumulator does; a first byte that is no digit gives 0. Data that are
  digits to the last byte are left out: the scan does not stop at \<open>len\<close>.
\<close>

theorem counter_write_parses_leading_digits:
  assumes "dtype c \<noteq> YUREX_DEVICE_TYPE_ANIME"
  shows "device_write d c' mem 0 = Inr (B_OK, d, []) \<and>
         (len \<noteq> 0 \<and> \<not> list_all is_digit (take (unat len) mem) \<longrightarrow>
            (\<exists>v. device_write d c mem len = Inr (B_OK, d, [SendRequest (udev d) (ifno d) (write_req v)]) \<and>
                 unat v = dec_value (takeWhile is_digit (take (unat len) mem)) mod 2 ^ 64)) \<and>
         (len \<noteq> 0 \<and> \<not> is_digit b \<longrightarrow>
            device_write d c (b # rest) len = Inr (B_OK, d, [SendRequest (udev d) (ifno d) (write_req 0)]))"
proof -
  have z: "device_write d c' mem 0 = Inr (B_OK, d, [])"
    by (simp add: device_write_def)
  have r: "\<exists>v. device_write d c mem len = Inr (B_OK, d, [SendRequest (udev d) (ifno d) (write_req v)]) \<and>
                 unat v = dec_value (takeWhile is_digit (take (unat len) mem)) mod 2 ^ 64"
    if "len \<noteq> 0" and "\<not> list_all is_digit (take (unat len) mem)"
    using assms that bbu_scan_data[of "unat len" mem]
    by (intro exI[of _ "of_nat (dec_value (takeWhile is_digit (take (unat len) mem)))"])
       (simp add: device_write_def yurex_write_bbu_def unat_of_nat)
  have n: "device_write d c (b # rest) len = Inr (B_OK, d, [SendRequest (udev d) (ifno d) (write_req 0)])"
    if "len \<noteq> 0" and "\<not> is_digit b"
    using assms that
    by (simp add: device_write_def yurex_write_bbu_def bbu_scan_Cons del: bbu_scan.simps)
  from z r n show ?thesis by blast
qed

theorem counter_write_parses_leading_digits_witness:
  "dtype (new_dev_open 1 YUREX_DEVICE_TYPE_BBU) \<noteq> YUREX_DEVICE_TYPE_ANIME \<and> (10::u64) \<noteq> 0 \<and>
   \<not> list_all is_digit (take (unat (10::u64)) [0x31, 0x32, 0x33, 0x34, 0x35, 0x65, 0x78, 0x74, 0x72, 0x61]) \<and>
   device_write (new_device 7) (new_dev_open 1 YUREX_DEVICE_TYPE_BBU)
       [0x31, 0x32, 0x33, 0x34, 0x35, 0x65, 0x78, 0x74, 0x72, 0x61] 10 =
     Inr (B_OK, new_device 7, [SendRequest 7 0 (write_req 12345)]) \<and>
   dec_value (takeWhile is_digit (take (unat (10::u64)) [0x31, 0x32, 0x33, 0x34, 0x35, 0x65, 0x78, 0x74, 0x72, 0x61])) = 12345 \<and>
   \<not> is_digit 0x65 \<and>
   device_write (new_device 7) (new_dev_open 1 YUREX_DEVICE_TYPE_BBU) [0x65, 0x78] 10 =
     Inr (B_OK, new_device 7, [SendRequest 7 0 (write_req 0)]) \<and>
   device_write (new_device 7) (new_dev_open 1 YUREX_DEVICE_TYPE_BBU)
       [0x31, 0x32, 0x33, 0x34, 0x35, 0x65, 0x78, 0x74, 0x72, 0x61] 0 =
     Inr (B_OK, new_device 7, [])"
  using counter_write_parses_leading_digits [of "new_dev_open 1 YUREX_DEVICE_TYPE_BBU" "new_device 7" "new_dev_open 1 YUREX_DEVICE_TYPE_BBU"
      "[0x31, 0x32, 0x33, 0x34, 0x35, 0x65, 0x78, 0x74, 0x72, 0x61]" 10 "0x65" "[0x78]"]
  by (simp add: new_dev_open_def new_device_def YUREX_DEVICE_TYPE_BBU_def YUREX_DEVICE_TYPE_ANIME_def
      is_digit_def dec_value_def device_write_def yurex_write_bbu_def)

text \<open>
  Claim C7, as stated, at the twenty digits of \<open>2 ^ 64\<close> followed by a newline: the
  number denoted is \<open>18446744073709551616\<close>, the value passed is 0.
\<close>

theorem counter_write_wraps_counterexample:
  "device_write (new_device 7) (new_dev_open 1 YUREX_DEVICE_TYPE_BBU)
       [0x31, 0x38, 0x34, 0x34, 0x36, 0x37, 0x34, 0x34, 0x30, 0x37, 0x33, 0x37, 0x30, 0x39, 0x35, 0x35,
        0x31, 0x36, 0x31, 0x36, 0x0a] 21 =
     Inr (B_OK, new_device 7, yurex_write_bbu (new_device 7) 0) \<and>
   dec_value (takeWhile is_digit (take (unat (21::u64))
       [0x31, 0x38, 0x34, 0x34, 0x36, 0x37, 0x34, 0x34, 0x30, 0x37, 0x33, 0x37, 0x30, 0x39, 0x35, 0x35,
        0x31, 0x36, 0x31, 0x36, 0x0a])) = 18446744073709551616 \<and>
   unat (0::u64) \<noteq> 18446744073709551616"
  by (simp add: new_dev_open_def YUREX_DEVICE_TYPE_BBU_def YUREX_DEVICE_TYPE_ANIME_def
      is_digit_def dec_value_def device_write_def two_64_wraps)

text \<open>
  The scan beyond the length: three bytes \<open>"123"\<close> written from an object that holds
  \<open>"123456"\<close> pass 123456, and from an object of just these three bytes the scan leaves
  the object.
\<close>

lemma counter_write_scans_past_length:
  "device_write (new_device 7) (new_dev_open 1 YUREX_DEVICE_TYPE_BBU)
       [0x31, 0x32, 0x33, 0x34, 0x35, 0x36, 0x00] 3 = Inr (B_OK, new_device 7, yurex_write_bbu (new_device 7) 123456)
   \<and> dec_value (takeWhile is_digit (take (unat (3::u64)) [0x31, 0x32, 0x33, 0x34, 0x35, 0x36, 0x00])) = 123
   \<and> device_write (new_device 7) (new_dev_open 1 YUREX_DEVICE_TYPE_BBU) [0x31, 0x32, 0x33] 3 = Inl OutOfBounds"
  by (simp add: new_dev_open_def YUREX_DEVICE_TYPE_BBU_def YUREX_DEVICE_TYPE_ANIME_def
      is_digit_def dec_value_def device_write_def)

section \<open>The counter stays below \<open>2 ^ 40\<close>\<close>

lemma endpoint_check_bbu: "bbu (endpoint_check H i es d) = bbu d"
  by (induction es) simp_all

lemma interface_check_bbu: "bbu (interface_check H i l d) = bbu d"
  by (induction H i l d rule: interface_check.induct) (simp_all add: Let_def endpoint_check_bbu)

lemma device_added_bbu:
  assumes "device_added H u cookie conf rc s = (st, s')" and "heap s' a = Some d"
  shows "heap s a = Some d \<or> bbu d = 0"
  using assms
  by (auto simp: device_added_def Let_def new_device_def interface_check_bbu
      split: option.splits if_splits)

lemma device_removed_heap:
  assumes "device_removed a s = Inr s'" and "heap s' b = Some d"
  shows "heap s b = Some d"
  using assms
  by (auto simp: device_removed_def free_resource_def cancel_transfers_def forbid_requeue_def
      remove_instance_def split: option.splits if_splits)

lemma callback_bbu:
  "length req = 8 \<Longrightarrow> bbu (fst (yurex_callback d req)) = bbu d \<or> unat (bbu (fst (yurex_callback d req))) < 2 ^ 40"
  using bbu_of_req_lt[of req] by (auto simp: yurex_callback_def)

lemma callback_at_bbu:
  assumes "callback_at a req s = Inr s'" and "length req = 8" and "heap s' b = Some d'"
  shows "heap s b = Some d' \<or> unat (bbu d') < 2 ^ 40 \<or> (\<exists>d. heap s b = Some d \<and> bbu d' = bbu d)"
proof -
  from assms(1) obtain d where h: "heap s a = Some d"
    and s': "s' = s\<lparr>heap := (heap s)(a \<mapsto> fst (yurex_callback d req)),
                     trace := trace s @ snd (yurex_callback d req)\<rparr>"
    by (auto simp: callback_at_def split_beta split: option.splits)
  show ?thesis
  proof (cases "b = a")
    case True
    then have "d' = fst (yurex_callback d req)" using assms(3) s' by simp
    then show ?thesis using callback_bbu[OF assms(2), of d] h True by auto
  next
    case False
    then show ?thesis using assms(3) s' by simp
  qed
qed

lemma device_write_bbu:
  "device_write d c mem len = Inr (st, d1, ev) \<Longrightarrow> bbu d1 = bbu d"
  by (auto simp: device_write_def Let_def split: if_splits list.splits sum.splits)

lemma write_at_bbu:
  assumes "write_at c mem len s = Inr s'" and "heap s' b = Some d'"
  shows "\<exists>d. heap s b = Some d \<and> bbu d' = bbu d"
  using assms
  by (auto simp: write_at_def split: option.splits sum.splits if_splits dest: device_write_bbu)

lemma reachable_bbu:
  "reachable H s \<Longrightarrow> heap s a = Some d \<Longrightarrow> unat (bbu d) < 2 ^ 40"
proof (induction arbitrary: a d rule: reachable.induct)
  case r_init
  then show ?case by (simp add: init_driver_def)
next
  case (r_added s u cookie conf setconf st s')
  from device_added_bbu[OF r_added.hyps(2) r_added.prems]
  show ?case using r_added.IH by auto
next
  case (r_removed s a' s')
  from device_removed_heap[OF r_removed.hyps(2) r_removed.prems]
  show ?case using r_removed.IH by auto
next
  case (r_callback s req a' s')
  from callback_at_bbu[OF r_callback.hyps(3) r_callback.hyps(2) r_callback.prems]
  show ?case using r_callback.IH by auto
next
  case (r_write s cookie mem len s')
  from write_at_bbu[OF r_write.hyps(2) r_write.prems]
  show ?case using r_write.IH by auto
qed

lemma sint_small:
  assumes "unat (v::u64) < 2 ^ 40"
  shows "sint v = int (unat v)"
proof -
  have a: "unat v < 2 ^ 63" using assms by simp
  have "int (unat v) < int (2 ^ 63)" using a by (simp only: of_nat_less_iff)
  then have "int (unat v) < 2 ^ 63" by (simp only: of_nat_power of_nat_numeral)
  then have b: "uint v < 2 ^ 63" by (simp only: uint_nat)
  have n: "- (2 ^ 63) \<le> uint v" by (rule order_trans[of _ 0]) simp_all
  have "sint v = signed_take_bit 63 (uint v)" by (simp add: sint_uint)
  also have "\<dots> = uint v" using n b by (rule signed_take_bit_int_eq_self)
  finally show ?thesis by (simp only: uint_nat)
qed

lemma dec_digits_length: "0 < k \<Longrightarrow> n < 10 ^ k \<Longrightarrow> length (dec_digits n) \<le> k"
proof (induction k arbitrary: n)
  case 0
  then show ?case by simp
next
  case (Suc k)
  show ?case
  proof (cases "n < 10")
    case True
    then show ?thesis by (simp add: dec_digits.simps)
  next
    case False
    then have k: "0 < k" using Suc.prems by (cases k) simp_all
    have "n div 10 < 10 ^ k" using Suc.prems by (simp add: less_mult_imp_div_less)
    from Suc.IH[OF k this] False show ?thesis by (subst dec_digits.simps) simp
  qed
qed

lemma snprintf16_short:
  "length t \<le> 15 \<Longrightarrow> snprintf16 old t = (t @ [0] @ drop (Suc (length t)) old, of_nat (length t))"
  by (simp add: snprintf16_def min_def)


lemma fst_device_read_counter:
  assumes "dtype c = YUREX_DEVICE_TYPE_BBU"
  shows "fst (device_read d c 0 n) =
           c\<lparr>buf := fst (snprintf16 (buf c) (fmt_signed (sint (bbu d)) @ [0x0a])),
             buf_len := snd (snprintf16 (buf c) (fmt_signed (sint (bbu d)) @ [0x0a]))\<rparr>"
  using assms by (simp add: device_read_def split_beta Let_def)

lemma staged_counter:
  assumes "unat (bbu d) < 2 ^ 40" and "dtype c = YUREX_DEVICE_TYPE_BBU"
  shows "take (unat (buf_len (fst (device_read d c 0 n)))) (buf (fst (device_read d c 0 n))) =
           dec_digits (unat (bbu d)) @ [0x0a]"
proof -
  define t where "t = dec_digits (unat (bbu d)) @ [0x0a :: u8]"
  have f: "fmt_signed (sint (bbu d)) @ [0x0a] = t"
    by (simp add: t_def fmt_signed_def sint_small[OF assms(1)])
  have "unat (bbu d) < 10 ^ 13" using assms(1) by simp
  then have "length (dec_digits (unat (bbu d))) \<le> 13" by (intro dec_digits_length) simp_all
  then have l: "length t \<le> 14" by (simp add: t_def)
  then have l15: "length t \<le> 15" by simp
  have "length t < 2 ^ LENGTH(64)" using l by simp
  then have u: "unat (of_nat (length t) :: u64) = length t"
    by (simp only: unat_of_nat mod_less)
  have r: "fst (device_read d c 0 n) =
      c\<lparr>buf := fst (snprintf16 (buf c) t), buf_len := snd (snprintf16 (buf c) t)\<rparr>"
    using fst_device_read_counter[OF assms(2), of d n] by (simp only: f)
  have "take (unat (buf_len (fst (device_read d c 0 n)))) (buf (fst (device_read d c 0 n))) = t"
    unfolding r snprintf16_short[OF l15] by (simp add: u)
  then show ?thesis by (simp only: t_def)
qed

text \<open>
  Claim C10. In every state the driver reaches, every allocated device has a counter
  below \<open>2 ^ 40\<close>: a new device has counter 0, the completion handler stores the value
  of five bytes, and arrival of another device, removal and writes leave the counters as
  they are. A read at offset 0 on a counter session therefore stages the decimal digits
  of that value and a newline, with no sign and without truncation.
\<close>

theorem counter_below_2_40:
  assumes "reachable H s" and "heap s a = Some d"
  shows "unat (bbu d) < 2 ^ 40 \<and>
         (dtype c = YUREX_DEVICE_TYPE_BBU \<longrightarrow>
            take (unat (buf_len (fst (device_read d c 0 n)))) (buf (fst (device_read d c 0 n))) =
              dec_digits (unat (bbu d)) @ [0x0a])"
  using reachable_bbu[OF assms] staged_counter[of d c n] by blast

lemma reachable_streaming: "reachable example_header streaming_driver"
proof -
  have "device_added example_header 7 (Some 1) (Some example_conf) B_OK init_driver =
      (fst (device_added example_header 7 (Some 1) (Some example_conf) B_OK init_driver), streaming_driver)"
    by (simp add: streaming_driver_def)
  with r_init show ?thesis by (rule r_added)
qed

lemma callback_streaming:
  "callback_at 1 [0x43, 0, 0, 0, 1, 0x2c, 0x0d, 0xff] streaming_driver =
     Inr (streaming_driver
       \<lparr>heap := (heap streaming_driver)(1 \<mapsto> \<lparr>udev = 7, ifno = 0, ep_detect = 1, ep_address = 0x81, ep = 5, bbu = 300, anime = 1\<rparr>),
        trace := trace streaming_driver @ [QueueInterrupt 5]\<rparr>)"
  by (simp add: callback_at_def streaming_driver_eq yurex_callback_def bbu_of_req_8
      yurex_interrupt_def CMD_VALUE_def CMD_EOF_def)

lemma reachable_counted: "reachable example_header counted_driver"
proof -
  have c: "callback_at 1 [0x43, 0, 0, 0, 1, 0x2c, 0x0d, 0xff] streaming_driver = Inr counted_driver"
    by (simp only: counted_driver_def callback_streaming sum.case)
  have l: "length [0x43, 0, 0, 0, 1, 0x2c, 0x0d, 0xff :: u8] = 8" by simp
  from reachable_streaming l c show ?thesis by (rule r_callback)
qed

lemma dec_digits_300: "dec_digits 300 = [0x33, 0x30, 0x30]"
  by (simp add: dec_digits.simps)

theorem counter_below_2_40_witness:
  "reachable example_header counted_driver \<and>
   heap counted_driver 1 =
     Some \<lparr>udev = 7, ifno = 0, ep_detect = 1, ep_address = 0x81, ep = 5, bbu = 300, anime = 1\<rparr> \<and>
   dtype (new_dev_open 1 YUREX_DEVICE_TYPE_BBU) = YUREX_DEVICE_TYPE_BBU \<and>
   unat (300 :: u64) < 2 ^ 40 \<and>
   take (unat (buf_len (fst (device_read
           \<lparr>udev = 7, ifno = 0, ep_detect = 1, ep_address = 0x81, ep = 5, bbu = 300, anime = 1\<rparr>
           (new_dev_open 1 YUREX_DEVICE_TYPE_BBU) 0 16))))
        (buf (fst (device_read
           \<lparr>udev = 7, ifno = 0, ep_detect = 1, ep_address = 0x81, ep = 5, bbu = 300, anime = 1\<rparr>
           (new_dev_open 1 YUREX_DEVICE_TYPE_BBU) 0 16))) =
     [0x33, 0x30, 0x30, 0x0a]"
proof -
  have h: "heap counted_driver 1 =
     Some \<lparr>udev = 7, ifno = 0, ep_detect = 1, ep_address = 0x81, ep = 5, bbu = 300, anime = 1\<rparr>"
    by (simp only: counted_driver_def callback_streaming sum.case) simp
  have t: "dtype (new_dev_open 1 YUREX_DEVICE_TYPE_BBU) = YUREX_DEVICE_TYPE_BBU"
    by (simp add: new_dev_open_def)
  from counter_below_2_40 [OF reachable_counted h, of "new_dev_open 1 YUREX_DEVICE_TYPE_BBU" 16] t h reachable_counted
  show ?thesis by (simp add: dec_digits_300)
qed

end
